theory Spec2Isabelle
  imports Complex_Main "HOL-Library.Sublist"
begin

section \<open>Data model\<close>

text \<open>
  The embedding covers \<^verbatim>\<open>src/services/geminiLiveService.ts\<close> (class
  \<^verbatim>\<open>GeminiLiveService\<close>) and the two callbacks of \<^verbatim>\<open>src/App.tsx\<close> that drive it
  (\<^verbatim>\<open>handleTranscript\<close>, \<^verbatim>\<open>toggleConnection\<close>).

  Every method takes the service object and returns the list of outward effects it performs,
  in program order, together with the updated object. Times of the playback clock are JavaScript
  numbers; they are modelled as \<^typ>\<open>real\<close>, so rounding of doubles is not modelled.

  \<^verbatim>\<open>handleMessage\<close> is an \<^verbatim>\<open>async\<close> method with one suspension point, the \<^verbatim>\<open>await\<close> of the
  decoder, and \<^verbatim>\<open>onmessage\<close> does not wait for it. It is embedded as two functions: what a
  call does until it returns, throws or suspends, and what a suspended call does when its
  decode completes. Between the two, other handlers may run. A call that is not overtaken
  in this way is the composition of the two.
\<close>

datatype ConnectionStatus = DISCONNECTED | CONNECTING | CONNECTED | ERROR

text \<open>
  A decoded Web Audio buffer. Its \<^verbatim>\<open>duration\<close> attribute is the number of sample frames
  divided by the sample rate, hence never negative.
\<close>

record AudioBuffer =
  bufferLength :: nat
  bufferSampleRate :: nat

definition duration :: "AudioBuffer \<Rightarrow> real" where
  "duration b = real (bufferLength b) / real (bufferSampleRate b)"

text \<open>
  A buffer source node after \<^verbatim>\<open>source.buffer = audioBuffer; source.start(when)\<close>.
\<close>

record AudioBufferSourceNode =
  buffer :: AudioBuffer
  startWhen :: real

datatype AudioContext = AudioContext (contextSampleRate: nat)

datatype MediaStream = MediaStream

datatype Session = Session

record ScriptProcessorNode =
  processorConnected :: bool
  onaudioprocess :: bool

text \<open>
  The fields of a \<^verbatim>\<open>LiveServerMessage\<close> that \<^verbatim>\<open>handleMessage\<close> reads, each after its chain
  of optional accesses: \<^verbatim>\<open>serverContent?.outputTranscription\<close> (its text when the object is
  there), \<^verbatim>\<open>serverContent?.inputTranscription\<close>, \<^verbatim>\<open>serverContent?.turnComplete\<close>,
  \<^verbatim>\<open>serverContent?.modelTurn\<close> and \<^verbatim>\<open>serverContent?.interrupted\<close>. A transcription object
  is taken to carry a string as its text. A model turn is a \<^verbatim>\<open>Content\<close>, whose array of
  parts is optional; of a part only \<^verbatim>\<open>inlineData?.data\<close> is read.
\<close>

datatype Part = Part (inlineData: "string option")

record Content =
  parts :: "Part list option"

record LiveServerMessage =
  outputTranscription :: "string option"
  inputTranscription :: "string option"
  turnComplete :: bool
  modelTurn :: "Content option"
  interrupted :: bool

text \<open>
  \<^verbatim>\<open>message.serverContent?.modelTurn?.parts[0]?.inlineData?.data\<close>: the index into \<^verbatim>\<open>parts\<close>
  is not an optional access, so on a model turn without its array of parts it throws a
  \<^verbatim>\<open>TypeError\<close>. On an empty array it gives \<^verbatim>\<open>undefined\<close>.
\<close>

datatype error = TypeError

definition inlineDataOf :: "LiveServerMessage \<Rightarrow> error + string option" where
  "inlineDataOf message =
     (case modelTurn message of
        None \<Rightarrow> Inr None
      | Some content \<Rightarrow>
          (case parts content of
             None \<Rightarrow> Inl TypeError
           | Some [] \<Rightarrow> Inr None
           | Some (part # rest) \<Rightarrow> Inr (inlineData part)))"

text \<open>
  The outward effects: the three callbacks, the diagnostic, the calls on audio objects, and
  the rejection of the promise of a call that threw, which nothing handles.
  \<open>OnTranscript text isUser isFinal\<close> is one call of the transcript callback.
\<close>

datatype effect =
    OnStatusChange ConnectionStatus
  | OnTranscript string bool bool
  | OnVolumeChange real
  | ConsoleError
  | UnhandledRejection error
  | NewAudioContext nat
  | GetUserMedia
  | LiveConnect
  | SourceStart AudioBufferSourceNode
  | SourceStop AudioBufferSourceNode
  | ProcessorDisconnect
  | TracksStop
  | ContextClose AudioContext

record GeminiLiveService =
  inputAudioContext :: "AudioContext option"
  outputAudioContext :: "AudioContext option"
  scriptProcessor :: "ScriptProcessorNode option"
  mediaStream :: "MediaStream option"
  nextStartTime :: real
  sources :: "AudioBufferSourceNode list"
  sessionPromise :: "Session option"
  currentInputTranscription :: string
  currentOutputTranscription :: string

text \<open>The object as its field initialisers and constructor leave it.\<close>

definition newService :: GeminiLiveService where
  "newService =
     \<lparr>inputAudioContext = None, outputAudioContext = None, scriptProcessor = None,
      mediaStream = None, nextStartTime = 0, sources = [], sessionPromise = None,
      currentInputTranscription = [], currentOutputTranscription = []\<rparr>"

text \<open>
  \<^verbatim>\<open>../constants\<close> is not part of the sources at hand; the two sample rates are parameters.
\<close>

record constants =
  SAMPLE_RATE_INPUT :: nat
  SAMPLE_RATE_OUTPUT :: nat

section \<open>Playback cancellation and teardown\<close>

text \<open>
  \<^verbatim>\<open>stopAllAudio\<close>: the loop visits every source of the set in insertion order, stops it
  (a throw of \<^verbatim>\<open>stop\<close> is ignored) and deletes it from the set. \<open>stopEach todo set\<close> is the
  loop over the sources still to visit, carrying the set.
\<close>

fun stopEach ::
  "AudioBufferSourceNode list \<Rightarrow> AudioBufferSourceNode list
     \<Rightarrow> effect list \<times> AudioBufferSourceNode list" where
  "stopEach [] srcs = ([], srcs)"
| "stopEach (source # todo) srcs =
     (let (es, srcs') = stopEach todo (remove1 source srcs)
      in (SourceStop source # es, srcs'))"

definition stopAllAudio :: "GeminiLiveService \<Rightarrow> effect list \<times> GeminiLiveService" where
  "stopAllAudio s =
     (let (es, srcs) = stopEach (sources s) (sources s)
      in (es, s\<lparr>sources := srcs\<rparr>))"

definition disconnect :: "GeminiLiveService \<Rightarrow> effect list \<times> GeminiLiveService" where
  "disconnect s =
     (let e1 = (case scriptProcessor s of Some p \<Rightarrow> [ProcessorDisconnect] | None \<Rightarrow> []);
          s1 = s\<lparr>scriptProcessor :=
                   map_option (\<lambda>p. p\<lparr>processorConnected := False, onaudioprocess := False\<rparr>)
                     (scriptProcessor s)\<rparr>;
          e2 = (case mediaStream s1 of Some m \<Rightarrow> [TracksStop] | None \<Rightarrow> []);
          (e3, s3) = stopAllAudio s1;
          e4 = (case inputAudioContext s3 of Some c \<Rightarrow> [ContextClose c] | None \<Rightarrow> [])
             @ (case outputAudioContext s3 of Some c \<Rightarrow> [ContextClose c] | None \<Rightarrow> []);
          s4 = s3\<lparr>inputAudioContext := None, outputAudioContext := None,
                  mediaStream := None, sessionPromise := None\<rparr>
      in (e1 @ e2 @ e3 @ e4, s4))"

section \<open>Connecting\<close>

text \<open>
  What the browser answers during \<^verbatim>\<open>connect\<close>: whether the \<^verbatim>\<open>AudioContext\<close> constructor
  works and whether \<^verbatim>\<open>getUserMedia\<close> resolves. Either failure lands in the \<^verbatim>\<open>catch\<close>
  block. \<^verbatim>\<open>ai.live.connect\<close> returns a promise that is stored, not awaited.
\<close>

record browser =
  audioContextAvailable :: bool
  microphoneGranted :: bool

definition connect ::
  "constants \<Rightarrow> browser \<Rightarrow> GeminiLiveService \<Rightarrow> effect list \<times> GeminiLiveService" where
  "connect k env s =
     (if \<not> audioContextAvailable env then
        (let (es, s') = disconnect s
         in ([OnStatusChange CONNECTING, ConsoleError, OnStatusChange ERROR] @ es, s'))
      else
        (let s1 = s\<lparr>inputAudioContext := Some (AudioContext (SAMPLE_RATE_INPUT k)),
                    outputAudioContext := Some (AudioContext (SAMPLE_RATE_OUTPUT k))\<rparr>;
             e1 = [OnStatusChange CONNECTING, NewAudioContext (SAMPLE_RATE_INPUT k),
                   NewAudioContext (SAMPLE_RATE_OUTPUT k), GetUserMedia]
         in if \<not> microphoneGranted env then
              (let (es, s') = disconnect s1
               in (e1 @ [ConsoleError, OnStatusChange ERROR] @ es, s'))
            else
              (e1 @ [LiveConnect],
               s1\<lparr>mediaStream := Some MediaStream, sessionPromise := Some Session\<rparr>)))"

text \<open>
  \<^verbatim>\<open>setupAudioInput\<close> installs the capture processor; the per-window volume computation
  inside the installed handler is not modelled.
\<close>

definition setupAudioInput :: "GeminiLiveService \<Rightarrow> GeminiLiveService" where
  "setupAudioInput s =
     (if inputAudioContext s = None \<or> mediaStream s = None \<or> sessionPromise s = None then s
      else s\<lparr>scriptProcessor := Some \<lparr>processorConnected = True, onaudioprocess = True\<rparr>\<rparr>)"

text \<open>The session callback \<^verbatim>\<open>onopen\<close> registered by \<^verbatim>\<open>connect\<close>.\<close>

definition onopen :: "GeminiLiveService \<Rightarrow> effect list \<times> GeminiLiveService" where
  "onopen s = ([OnStatusChange CONNECTED], setupAudioInput s)"

section \<open>Inbound messages\<close>

text \<open>
  The third block of \<^verbatim>\<open>handleMessage\<close>, under \<^verbatim>\<open>// 3. Handle Interruption\<close>. Its flag is
  \<^verbatim>\<open>message.serverContent?.interrupted\<close>.
\<close>

definition handleInterruption ::
  "bool \<Rightarrow> GeminiLiveService \<Rightarrow> effect list \<times> GeminiLiveService" where
  "handleInterruption flag s =
     (if flag then
        (let (es, sd) = stopAllAudio s
         in (es, sd\<lparr>currentOutputTranscription := [], nextStartTime := 0\<rparr>))
      else ([], s))"

text \<open>
  A call of \<^verbatim>\<open>handleMessage\<close> suspended at its \<^verbatim>\<open>await\<close> keeps two things of its message:
  the audio data being decoded and the interruption flag it has still to test.
\<close>

datatype pending = Pending (pendingAudio: string) (pendingInterrupted: bool)

datatype outcome = Returned | Thrown | Awaiting pending

text \<open>
  \<^verbatim>\<open>handleMessage\<close> from its entry to the point where it returns, throws or suspends. \<open>now\<close>
  is \<^verbatim>\<open>outputAudioContext.currentTime\<close> as the call reads it. An empty string is falsy in
  JavaScript, which the three string tests of the method rely on. The clamp of
  \<open>nextStartTime\<close> to the clock is the last statement before the \<^verbatim>\<open>try\<close> block, whose
  first \<^verbatim>\<open>await\<close> suspends the call.
\<close>

definition handleMessageBegin ::
  "real \<Rightarrow> LiveServerMessage \<Rightarrow> GeminiLiveService
     \<Rightarrow> effect list \<times> GeminiLiveService \<times> outcome" where
  "handleMessageBegin now message s =
     (let (e1, s1) =
            (case outputTranscription message of
               Some text \<Rightarrow>
                 (let s' = s\<lparr>currentOutputTranscription := currentOutputTranscription s @ text\<rparr>
                  in ([OnTranscript (currentOutputTranscription s') False False], s'))
             | None \<Rightarrow>
                 (case inputTranscription message of
                    Some text \<Rightarrow>
                      (let s' = s\<lparr>currentInputTranscription :=
                                     currentInputTranscription s @ text\<rparr>
                       in ([OnTranscript (currentInputTranscription s') True False], s'))
                  | None \<Rightarrow> ([], s)));
          (e2, s2) =
            (if turnComplete message then
               (let (ea, sa) =
                      (if currentInputTranscription s1 \<noteq> [] then
                         ([OnTranscript (currentInputTranscription s1) True True],
                          s1\<lparr>currentInputTranscription := []\<rparr>)
                       else ([], s1));
                    (eb, sb) =
                      (if currentOutputTranscription sa \<noteq> [] then
                         ([OnTranscript (currentOutputTranscription sa) False True],
                          sa\<lparr>currentOutputTranscription := []\<rparr>)
                       else ([], sa))
                in (ea @ eb, sb))
             else ([], s1));
          finish =
            (let (e4, s4) = handleInterruption (interrupted message) s2
             in (e1 @ e2 @ e4, s4, Returned))
      in case inlineDataOf message of
           Inl err \<Rightarrow> (e1 @ e2 @ [UnhandledRejection err], s2, Thrown)
         | Inr None \<Rightarrow> finish
         | Inr (Some base64Audio) \<Rightarrow>
             (if base64Audio \<noteq> [] \<and> outputAudioContext s2 \<noteq> None then
                (e1 @ e2, s2\<lparr>nextStartTime := max (nextStartTime s2) now\<rparr>,
                 Awaiting (Pending base64Audio (interrupted message)))
              else finish))"

text \<open>
  \<^verbatim>\<open>handleMessage\<close> from the completion of its decode to its end. \<open>decode\<close> stands for
  \<^verbatim>\<open>base64ToBytes\<close> followed by \<^verbatim>\<open>decodeAudioData\<close> (module \<^verbatim>\<open>./audioUtils\<close>, not part of
  the sources at hand): the decoded buffer, or \<open>None\<close> when either throws or rejects, which
  lands in the \<^verbatim>\<open>catch\<close> block. So does the \<^verbatim>\<open>TypeError\<close> of
  \<^verbatim>\<open>this.outputAudioContext.createBufferSource()\<close> when the context has been dropped in the
  meantime. The source is started at the value \<open>nextStartTime\<close> has now. A failure of
  \<^verbatim>\<open>base64ToBytes\<close>, which the code meets before it suspends, is treated like a failure of
  the decoder: as a completion, which may come before any other handler runs. The
  \<^verbatim>\<open>ended\<close> listener attached to the source, which takes the source out of the set when its
  playback comes to its end, is not modelled.
\<close>

definition handleMessageResume ::
  "(string \<Rightarrow> AudioBuffer option) \<Rightarrow> pending \<Rightarrow> GeminiLiveService
     \<Rightarrow> effect list \<times> GeminiLiveService" where
  "handleMessageResume decode p s =
     (let (e3, s3) =
            (case decode (pendingAudio p) of
               None \<Rightarrow> ([ConsoleError], s)
             | Some audioBuffer \<Rightarrow>
                 (if outputAudioContext s = None then ([ConsoleError], s)
                  else
                    (let source = \<lparr>buffer = audioBuffer, startWhen = nextStartTime s\<rparr>
                     in ([OnVolumeChange (1 / 2), SourceStart source],
                         s\<lparr>nextStartTime := nextStartTime s + duration audioBuffer,
                           sources := sources s @ [source]\<rparr>))));
          (e4, s4) = handleInterruption (pendingInterrupted p) s3
      in (e3 @ e4, s4))"

text \<open>
  A call of \<^verbatim>\<open>handleMessage\<close> that no other handler overtakes: its decode completes before
  anything else runs.
\<close>

definition handleMessage ::
  "(string \<Rightarrow> AudioBuffer option) \<Rightarrow> real \<Rightarrow> LiveServerMessage \<Rightarrow> GeminiLiveService
     \<Rightarrow> effect list \<times> GeminiLiveService" where
  "handleMessage decode now message s =
     (let (es, s', result) = handleMessageBegin now message s
      in case result of
           Awaiting p \<Rightarrow>
             (let (es', s'') = handleMessageResume decode p s' in (es @ es', s''))
         | Returned \<Rightarrow> (es, s')
         | Thrown \<Rightarrow> (es, s'))"

subsection \<open>The four operations of the dispatcher\<close>

text \<open>
  The operations that the dispatcher applies to the transcript aggregator and the playback
  scheduler, each as its block of \<^verbatim>\<open>handleMessage\<close> performs it, and their sequencing.
  They are what \<^verbatim>\<open>handleMessage\<close> is compared with; \<^verbatim>\<open>handleMessage\<close> itself is the
  definition above.
\<close>

definition andThen ::
  "('s \<Rightarrow> effect list \<times> 's) \<Rightarrow> ('s \<Rightarrow> effect list \<times> 's) \<Rightarrow> 's \<Rightarrow> effect list \<times> 's" where
  "andThen f g s = (let (e, s') = f s; (e', s'') = g s' in (e @ e', s''))"

definition skip :: "'s \<Rightarrow> effect list \<times> 's" where
  "skip s = ([], s)"

text \<open>Transcript delta: append to the speaker's open turn, emit the turn's text, not final.\<close>

definition transcriptDelta ::
  "bool \<Rightarrow> string \<Rightarrow> GeminiLiveService \<Rightarrow> effect list \<times> GeminiLiveService" where
  "transcriptDelta isUser delta s =
     (if isUser then
        ([OnTranscript (currentInputTranscription s @ delta) True False],
         s\<lparr>currentInputTranscription := currentInputTranscription s @ delta\<rparr>)
      else
        ([OnTranscript (currentOutputTranscription s @ delta) False False],
         s\<lparr>currentOutputTranscription := currentOutputTranscription s @ delta\<rparr>))"

text \<open>Turn complete: for the user, then for the model, flush a non-empty open turn.\<close>

definition flushTurn ::
  "bool \<Rightarrow> GeminiLiveService \<Rightarrow> effect list \<times> GeminiLiveService" where
  "flushTurn isUser s =
     (if isUser then
        (if currentInputTranscription s \<noteq> [] then
           ([OnTranscript (currentInputTranscription s) True True],
            s\<lparr>currentInputTranscription := []\<rparr>)
         else ([], s))
      else
        (if currentOutputTranscription s \<noteq> [] then
           ([OnTranscript (currentOutputTranscription s) False True],
            s\<lparr>currentOutputTranscription := []\<rparr>)
         else ([], s)))"

definition turnCompleted :: "GeminiLiveService \<Rightarrow> effect list \<times> GeminiLiveService" where
  "turnCompleted = andThen (flushTurn True) (flushTurn False)"

text \<open>
  Audio chunk, on arrival: clamp the timeline to the clock. On completion of the decode:
  with a buffer and an output context, start the source at the timeline and advance the
  timeline by the buffer's duration; otherwise log. The chunk is taken up only with
  non-empty data and an output context.
\<close>

definition clampTimeline :: "real \<Rightarrow> GeminiLiveService \<Rightarrow> effect list \<times> GeminiLiveService" where
  "clampTimeline now s = ([], s\<lparr>nextStartTime := max (nextStartTime s) now\<rparr>)"

definition scheduleDecoded ::
  "(string \<Rightarrow> AudioBuffer option) \<Rightarrow> string \<Rightarrow> GeminiLiveService
     \<Rightarrow> effect list \<times> GeminiLiveService" where
  "scheduleDecoded decode base64Audio s =
     (case decode base64Audio of
        None \<Rightarrow> ([ConsoleError], s)
      | Some audioBuffer \<Rightarrow>
          (if outputAudioContext s = None then ([ConsoleError], s)
           else
             ([OnVolumeChange (1 / 2),
               SourceStart \<lparr>buffer = audioBuffer, startWhen = nextStartTime s\<rparr>],
              s\<lparr>nextStartTime := nextStartTime s + duration audioBuffer,
                sources := sources s @ [\<lparr>buffer = audioBuffer, startWhen = nextStartTime s\<rparr>]\<rparr>)))"

definition audioChunk ::
  "(string \<Rightarrow> AudioBuffer option) \<Rightarrow> real \<Rightarrow> string \<Rightarrow> GeminiLiveService
     \<Rightarrow> effect list \<times> GeminiLiveService" where
  "audioChunk decode now base64Audio s =
     (if base64Audio \<noteq> [] \<and> outputAudioContext s \<noteq> None then
        andThen (clampTimeline now) (scheduleDecoded decode base64Audio) s
      else skip s)"

text \<open>Interruption: stop and forget every source, drop the model's open turn, reset the timeline.\<close>

definition interruption :: "GeminiLiveService \<Rightarrow> effect list \<times> GeminiLiveService" where
  "interruption s =
     (map SourceStop (sources s),
      s\<lparr>sources := [], currentOutputTranscription := [], nextStartTime := 0\<rparr>)"

text \<open>
  The transcript half of a message (the model's delta when the message has one, otherwise
  the user's delta when it has one, then turn complete) and the playback half (the audio
  chunk, then the interruption) for a message whose audio data can be read.
\<close>

definition transcriptPart ::
  "LiveServerMessage \<Rightarrow> GeminiLiveService \<Rightarrow> effect list \<times> GeminiLiveService" where
  "transcriptPart message =
     andThen
       (case outputTranscription message of
          Some delta \<Rightarrow> transcriptDelta False delta
        | None \<Rightarrow>
            (case inputTranscription message of
               Some delta \<Rightarrow> transcriptDelta True delta
             | None \<Rightarrow> skip))
       (if turnComplete message then turnCompleted else skip)"

definition playbackPart ::
  "(string \<Rightarrow> AudioBuffer option) \<Rightarrow> real \<Rightarrow> string option \<Rightarrow> bool \<Rightarrow> GeminiLiveService
     \<Rightarrow> effect list \<times> GeminiLiveService" where
  "playbackPart decode now audio flag =
     andThen
       (case audio of
          Some base64Audio \<Rightarrow> audioChunk decode now base64Audio
        | None \<Rightarrow> skip)
       (if flag then interruption else skip)"

text \<open>Whether the call suspends on the audio data it read: the guard of the second block.\<close>

definition suspends :: "string option \<Rightarrow> GeminiLiveService \<Rightarrow> bool" where
  "suspends audio s =
     (case audio of
        None \<Rightarrow> False
      | Some base64Audio \<Rightarrow> base64Audio \<noteq> [] \<and> outputAudioContext s \<noteq> None)"

subsection \<open>Reading transcripts off a message and off the effects\<close>

text \<open>
  The delta that \<^verbatim>\<open>handleMessage\<close> takes from a message for a speaker: the model's is
  taken whenever present, the user's only in the \<^verbatim>\<open>else if\<close> branch.
\<close>

definition deltaFor :: "bool \<Rightarrow> LiveServerMessage \<Rightarrow> string option" where
  "deltaFor isUser message =
     (if isUser then
        (case outputTranscription message of
           Some d \<Rightarrow> None
         | None \<Rightarrow> inputTranscription message)
      else outputTranscription message)"

fun deltasFor :: "bool \<Rightarrow> (real \<times> LiveServerMessage) list \<Rightarrow> string list" where
  "deltasFor isUser [] = []"
| "deltasFor isUser ((now, message) # rest) =
     (case deltaFor isUser message of
        Some d \<Rightarrow> d # deltasFor isUser rest
      | None \<Rightarrow> deltasFor isUser rest)"

text \<open>The open-turn buffer of a speaker.\<close>

definition transcription :: "bool \<Rightarrow> GeminiLiveService \<Rightarrow> string" where
  "transcription isUser s =
     (if isUser then currentInputTranscription s else currentOutputTranscription s)"

text \<open>The transcript callbacks among the effects for one speaker, as (text, isFinal).\<close>

fun transcriptsOf :: "bool \<Rightarrow> effect list \<Rightarrow> (string \<times> bool) list" where
  "transcriptsOf isUser [] = []"
| "transcriptsOf isUser (OnTranscript t u f # es) =
     (if u = isUser then (t, f) # transcriptsOf isUser es else transcriptsOf isUser es)"
| "transcriptsOf isUser (e # es) = transcriptsOf isUser es"

fun isTranscript :: "effect \<Rightarrow> bool" where
  "isTranscript (OnTranscript t u f) = True"
| "isTranscript e = False"

text \<open>The running concatenations \<open>b @ d\<^sub>1\<close>, \<open>b @ d\<^sub>1 @ d\<^sub>2\<close>, ... of a buffer and deltas.\<close>

fun accumulated :: "string \<Rightarrow> string list \<Rightarrow> string list" where
  "accumulated b [] = []"
| "accumulated b (d # ds) = (b @ d) # accumulated (b @ d) ds"

text \<open>
  The deliveries of \<^verbatim>\<open>onmessage\<close> in arrival order, each with the clock value its call
  reads, when no call is overtaken.
\<close>

fun onmessages ::
  "(string \<Rightarrow> AudioBuffer option) \<Rightarrow> (real \<times> LiveServerMessage) list \<Rightarrow> GeminiLiveService
     \<Rightarrow> effect list \<times> GeminiLiveService" where
  "onmessages decode [] s = ([], s)"
| "onmessages decode ((now, message) # rest) s =
     (let (es, s') = handleMessage decode now message s;
          (es', s'') = onmessages decode rest s'
      in (es @ es', s''))"

text \<open>
  Deliveries and decode completions interleaved: a delivery runs its call up to the point
  where it returns, throws or suspends; \<open>Decoded k\<close> completes the decode of the \<open>k\<close>-th
  call still suspended (in order of suspension), whichever that is, and runs that call to
  its end. A completion without such a call does nothing.
\<close>

datatype event = Message real LiveServerMessage | Decoded nat

fun deliver ::
  "(string \<Rightarrow> AudioBuffer option) \<Rightarrow> event \<Rightarrow> GeminiLiveService \<times> pending list
     \<Rightarrow> effect list \<times> GeminiLiveService \<times> pending list" where
  "deliver decode (Message now message) (s, ps) =
     (let (es, s', result) = handleMessageBegin now message s
      in (es, s', (case result of Awaiting p \<Rightarrow> ps @ [p] | Returned \<Rightarrow> ps | Thrown \<Rightarrow> ps)))"
| "deliver decode (Decoded k) (s, ps) =
     (if k < length ps then
        (let (es, s') = handleMessageResume decode (ps ! k) s
         in (es, s', take k ps @ drop (Suc k) ps))
      else ([], s, ps))"

fun session ::
  "(string \<Rightarrow> AudioBuffer option) \<Rightarrow> event list \<Rightarrow> GeminiLiveService \<times> pending list
     \<Rightarrow> effect list \<times> GeminiLiveService \<times> pending list" where
  "session decode [] sp = ([], sp)"
| "session decode (ev # rest) sp =
     (let (es, sp') = deliver decode ev sp;
          (es', sp'') = session decode rest sp'
      in (es @ es', sp''))"

section \<open>The message list of the user interface\<close>

datatype Role = User | Model

record ChatMessage =
  id' :: string
  role :: Role
  text' :: string
  timestamp :: nat
  isFinal :: bool

text \<open>
  \<^verbatim>\<open>handleTranscript\<close>, as the updater it passes to \<^verbatim>\<open>setMessages\<close>. The identifier and
  the creation time of a new message come from the clock and the random number generator;
  they are parameters.
\<close>

definition handleTranscript ::
  "string \<Rightarrow> nat \<Rightarrow> string \<Rightarrow> bool \<Rightarrow> bool \<Rightarrow> ChatMessage list \<Rightarrow> ChatMessage list" where
  "handleTranscript newId date txt isUser final prev =
     (let r = (if isUser then User else Model)
      in if prev \<noteq> [] \<and> role (last prev) = r \<and> \<not> isFinal (last prev) then
           prev[length prev - 1 := (last prev)\<lparr>text' := txt, isFinal := final\<rparr>]
         else
           prev @ [\<lparr>id' = newId, role = r, text' = txt, timestamp = date, isFinal = final\<rparr>])"

text \<open>A transcript callback invocation together with the identifier and time it draws.\<close>

record transcriptCall =
  callId :: string
  callDate :: nat
  callText :: string
  callIsUser :: bool
  callIsFinal :: bool

fun handleTranscripts :: "transcriptCall list \<Rightarrow> ChatMessage list \<Rightarrow> ChatMessage list" where
  "handleTranscripts [] prev = prev"
| "handleTranscripts (c # cs) prev =
     handleTranscripts cs
       (handleTranscript (callId c) (callDate c) (callText c) (callIsUser c) (callIsFinal c) prev)"

text \<open>
  In every run of consecutive messages of one speaker only the last may be non-final: a
  message followed by a message of the same speaker is final.
\<close>

fun pendingLast :: "ChatMessage list \<Rightarrow> bool" where
  "pendingLast [] = True"
| "pendingLast [x] = True"
| "pendingLast (x # y # xs) = ((role x \<noteq> role y \<or> isFinal x) \<and> pendingLast (y # xs))"

text \<open>
  The component state that \<^verbatim>\<open>toggleConnection\<close> reads and writes, with the service object
  behind \<^verbatim>\<open>liveServiceRef\<close> (set when the component mounts, so never null here). The
  status callback it hands to \<^verbatim>\<open>connect\<close> is \<^verbatim>\<open>setStatus\<close>: the status ends at the last
  value reported.
\<close>

record App =
  status :: ConnectionStatus
  volume :: real
  error :: "string option"
  liveService :: GeminiLiveService

fun setStatus :: "ConnectionStatus \<Rightarrow> effect list \<Rightarrow> ConnectionStatus" where
  "setStatus st [] = st"
| "setStatus st (OnStatusChange st' # es) = setStatus st' es"
| "setStatus st (e # es) = setStatus st es"

definition toggleConnection :: "constants \<Rightarrow> browser \<Rightarrow> App \<Rightarrow> effect list \<times> App" where
  "toggleConnection k env app =
     (if status app = CONNECTED \<or> status app = CONNECTING then
        (let (es, svc) = disconnect (liveService app)
         in (es, app\<lparr>liveService := svc, status := DISCONNECTED, volume := 0\<rparr>))
      else
        (let (es, svc) = connect k env (liveService app)
         in (es, app\<lparr>error := None, liveService := svc, status := setStatus (status app) es\<rparr>)))"

section \<open>Example inputs\<close>

text \<open>
  A service that has connected and opened (16 kHz capture, 24 kHz playback), messages with a
  single field set, and a decoder that knows two chunks: one second and half a second of
  audio at 24 kHz. Any other data fails to decode.
\<close>

definition exampleConstants :: constants where
  "exampleConstants = \<lparr>SAMPLE_RATE_INPUT = 16000, SAMPLE_RATE_OUTPUT = 24000\<rparr>"

definition permissive :: browser where
  "permissive = \<lparr>audioContextAvailable = True, microphoneGranted = True\<rparr>"

definition connectedService :: GeminiLiveService where
  "connectedService = snd (onopen (snd (connect exampleConstants permissive newService)))"

definition emptyMessage :: LiveServerMessage where
  "emptyMessage =
     \<lparr>outputTranscription = None, inputTranscription = None, turnComplete = False,
      modelTurn = None, interrupted = False\<rparr>"

definition audioMessage :: "string \<Rightarrow> LiveServerMessage" where
  "audioMessage base64Audio =
     emptyMessage\<lparr>modelTurn := Some \<lparr>parts = Some [Part (Some base64Audio)]\<rparr>\<rparr>"

definition oneSecond :: AudioBuffer where
  "oneSecond = \<lparr>bufferLength = 24000, bufferSampleRate = 24000\<rparr>"

definition halfSecond :: AudioBuffer where
  "halfSecond = \<lparr>bufferLength = 12000, bufferSampleRate = 24000\<rparr>"

definition exampleDecode :: "string \<Rightarrow> AudioBuffer option" where
  "exampleDecode base64Audio =
     (if base64Audio = ''AAAA'' then Some oneSecond
      else if base64Audio = ''BBBB'' then Some halfSecond
      else None)"

definition exampleCall :: "string \<Rightarrow> string \<Rightarrow> bool \<Rightarrow> bool \<Rightarrow> transcriptCall" where
  "exampleCall ident txt isUser final =
     \<lparr>callId = ident, callDate = 0, callText = txt, callIsUser = isUser, callIsFinal = final\<rparr>"

definition connectedApp :: App where
  "connectedApp =
     \<lparr>status = CONNECTED, volume = 0, error = None, liveService = connectedService\<rparr>"

section \<open>Properties of the operations\<close>

subsection \<open>Cancellation and teardown\<close>

lemma stopEach_fst: "fst (stopEach todo srcs) = map SourceStop todo"
  by (induction todo arbitrary: srcs) (simp_all add: split_beta)

lemma stopEach_snd: "snd (stopEach todo (todo @ rest)) = rest"
  by (induction todo) (simp_all add: split_beta)

lemma stopAllAudio_eq:
  "stopAllAudio s = (map SourceStop (sources s), s\<lparr>sources := []\<rparr>)"
  using stopEach_fst [of "sources s" "sources s"] stopEach_snd [of "sources s" "[]"]
  by (simp add: stopAllAudio_def split_beta prod_eq_iff)

lemma disconnect_eq:
  "disconnect s =
     ((case scriptProcessor s of Some p \<Rightarrow> [ProcessorDisconnect] | None \<Rightarrow> [])
      @ (case mediaStream s of Some m \<Rightarrow> [TracksStop] | None \<Rightarrow> [])
      @ map SourceStop (sources s)
      @ (case inputAudioContext s of Some c \<Rightarrow> [ContextClose c] | None \<Rightarrow> [])
      @ (case outputAudioContext s of Some c \<Rightarrow> [ContextClose c] | None \<Rightarrow> []),
      s\<lparr>scriptProcessor :=
           map_option (\<lambda>p. p\<lparr>processorConnected := False, onaudioprocess := False\<rparr>)
             (scriptProcessor s),
        sources := [], inputAudioContext := None, outputAudioContext := None,
        mediaStream := None, sessionPromise := None\<rparr>)"
  by (simp add: disconnect_def stopAllAudio_eq Let_def)


subsection \<open>\<^verbatim>\<open>handleMessage\<close> as its four operations in sequence\<close>

lemma fst_andThen: "fst (andThen f g s) = fst (f s) @ fst (g (snd (f s)))"
  by (simp add: andThen_def split_beta)

lemma snd_andThen: "snd (andThen f g s) = snd (g (snd (f s)))"
  by (simp add: andThen_def split_beta)

lemma handleInterruption_eq:
  "handleInterruption flag s = (if flag then interruption else skip) s"
  by (simp add: handleInterruption_def interruption_def skip_def stopAllAudio_eq)

lemma transcriptPart_keeps:
  "nextStartTime (snd (transcriptPart m s)) = nextStartTime s"
  "sources (snd (transcriptPart m s)) = sources s"
  "outputAudioContext (snd (transcriptPart m s)) = outputAudioContext s"
  "inputAudioContext (snd (transcriptPart m s)) = inputAudioContext s"
  "mediaStream (snd (transcriptPart m s)) = mediaStream s"
  "sessionPromise (snd (transcriptPart m s)) = sessionPromise s"
  "scriptProcessor (snd (transcriptPart m s)) = scriptProcessor s"
  by (simp_all add: transcriptPart_def fst_andThen snd_andThen transcriptDelta_def turnCompleted_def
      flushTurn_def skip_def split: option.splits)

lemma suspends_transcriptPart: "suspends audio (snd (transcriptPart m s)) = suspends audio s"
  by (simp add: suspends_def transcriptPart_keeps split: option.splits)

lemma handleMessageBegin_eq:
  "handleMessageBegin now m s =
     (case inlineDataOf m of
        Inl err \<Rightarrow>
          (fst (transcriptPart m s) @ [UnhandledRejection err], snd (transcriptPart m s), Thrown)
      | Inr audio \<Rightarrow>
          (if suspends audio s then
             (fst (transcriptPart m s), snd (clampTimeline now (snd (transcriptPart m s))),
              Awaiting (Pending (the audio) (interrupted m)))
           else
             (fst (transcriptPart m s)
                @ fst ((if interrupted m then interruption else skip) (snd (transcriptPart m s))),
              snd ((if interrupted m then interruption else skip) (snd (transcriptPart m s))),
              Returned)))"
proof -
  have A: "\<And>s. (case outputTranscription m of
               Some text \<Rightarrow>
                 (let s' = s\<lparr>currentOutputTranscription := currentOutputTranscription s @ text\<rparr>
                  in ([OnTranscript (currentOutputTranscription s') False False], s'))
             | None \<Rightarrow>
                 (case inputTranscription m of
                    Some text \<Rightarrow>
                      (let s' = s\<lparr>currentInputTranscription :=
                                     currentInputTranscription s @ text\<rparr>
                       in ([OnTranscript (currentInputTranscription s') True False], s'))
                  | None \<Rightarrow> ([], s)))
        = (case outputTranscription m of
          Some delta \<Rightarrow> transcriptDelta False delta
        | None \<Rightarrow>
            (case inputTranscription m of
               Some delta \<Rightarrow> transcriptDelta True delta
             | None \<Rightarrow> skip)) s"
    by (simp add: transcriptDelta_def skip_def Let_def split: option.splits)
  have B: "\<And>s1. (if turnComplete m then
               (let (ea, sa) =
                      (if currentInputTranscription s1 \<noteq> [] then
                         ([OnTranscript (currentInputTranscription s1) True True],
                          s1\<lparr>currentInputTranscription := []\<rparr>)
                       else ([], s1));
                    (eb, sb) =
                      (if currentOutputTranscription sa \<noteq> [] then
                         ([OnTranscript (currentOutputTranscription sa) False True],
                          sa\<lparr>currentOutputTranscription := []\<rparr>)
                       else ([], sa))
                in (ea @ eb, sb))
             else ([], s1)) = (if turnComplete m then turnCompleted else skip) s1"
    by (simp add: turnCompleted_def andThen_def flushTurn_def skip_def)
  have "handleMessageBegin now m s =
     (case inlineDataOf m of
        Inl err \<Rightarrow>
          (fst (transcriptPart m s) @ [UnhandledRejection err], snd (transcriptPart m s), Thrown)
      | Inr audio \<Rightarrow>
          (if suspends audio (snd (transcriptPart m s)) then
             (fst (transcriptPart m s), snd (clampTimeline now (snd (transcriptPart m s))),
              Awaiting (Pending (the audio) (interrupted m)))
           else
             (fst (transcriptPart m s)
                @ fst ((if interrupted m then interruption else skip) (snd (transcriptPart m s))),
              snd ((if interrupted m then interruption else skip) (snd (transcriptPart m s))),
              Returned)))"
    unfolding handleMessageBegin_def A B handleInterruption_eq
    by (simp add: transcriptPart_def andThen_def split_beta Let_def suspends_def clampTimeline_def
        split: sum.splits option.splits)
  then show ?thesis
    by (simp only: suspends_transcriptPart)
qed

lemma handleMessageResume_eq:
  "handleMessageResume decode p s
     = andThen (scheduleDecoded decode (pendingAudio p))
         (if pendingInterrupted p then interruption else skip) s"
  unfolding handleMessageResume_def handleInterruption_eq
  by (cases "decode (pendingAudio p)"; cases "outputAudioContext s")
     (simp_all add: andThen_def scheduleDecoded_def Let_def)

lemma audioChunk_eq:
  "audioChunk decode now base64Audio s =
     (if base64Audio \<noteq> [] \<and> outputAudioContext s \<noteq> None then
        (case decode base64Audio of
           None \<Rightarrow> ([ConsoleError], s\<lparr>nextStartTime := max (nextStartTime s) now\<rparr>)
         | Some audioBuffer \<Rightarrow>
             ([OnVolumeChange (1 / 2),
               SourceStart \<lparr>buffer = audioBuffer, startWhen = max (nextStartTime s) now\<rparr>],
              s\<lparr>nextStartTime := max (nextStartTime s) now + duration audioBuffer,
                sources := sources s
                   @ [\<lparr>buffer = audioBuffer, startWhen = max (nextStartTime s) now\<rparr>]\<rparr>))
      else ([], s))"
  by (simp add: audioChunk_def andThen_def clampTimeline_def scheduleDecoded_def skip_def
      split: option.splits)

lemma handleMessage_thrown:
  "inlineDataOf m = Inl err \<Longrightarrow>
     handleMessage decode now m s
       = (fst (transcriptPart m s) @ [UnhandledRejection err], snd (transcriptPart m s))"
  by (simp add: handleMessage_def handleMessageBegin_eq)

lemma handleMessage_parts:
  assumes "inlineDataOf m = Inr audio"
  shows "handleMessage decode now m s
           = andThen (transcriptPart m) (playbackPart decode now audio (interrupted m)) s"
proof (cases "suspends audio s")
  case True
  then obtain b where b: "audio = Some b" "b \<noteq> []" "outputAudioContext s \<noteq> None"
    by (auto simp add: suspends_def split: option.splits)
  then show ?thesis
    using assms True
    by (simp add: handleMessage_def handleMessageBegin_eq handleMessageResume_eq playbackPart_def
        audioChunk_def andThen_def split_beta transcriptPart_keeps clampTimeline_def)
next
  case False
  then have "(case audio of Some b \<Rightarrow> audioChunk decode now b | None \<Rightarrow> skip)
               (snd (transcriptPart m s)) = ([], snd (transcriptPart m s))"
    by (auto simp add: suspends_def audioChunk_def skip_def transcriptPart_keeps
        split: option.splits)
  then show ?thesis
    using assms False
    by (simp add: handleMessage_def handleMessageBegin_eq playbackPart_def andThen_def split_beta)
qed

lemma handleMessage_fst:
  "inlineDataOf m = Inr audio \<Longrightarrow>
     fst (handleMessage decode now m s)
       = fst (transcriptPart m s)
         @ fst (playbackPart decode now audio (interrupted m) (snd (transcriptPart m s)))"
  by (simp add: handleMessage_parts fst_andThen)

lemma handleMessage_snd:
  "inlineDataOf m = Inr audio \<Longrightarrow>
     snd (handleMessage decode now m s)
       = snd (playbackPart decode now audio (interrupted m) (snd (transcriptPart m s)))"
  by (simp add: handleMessage_parts snd_andThen)

lemma transcriptPart_effects: "list_all isTranscript (fst (transcriptPart m s))"
  by (simp add: transcriptPart_def fst_andThen snd_andThen transcriptDelta_def turnCompleted_def
      flushTurn_def skip_def split: option.splits)

lemma isTranscript_mem:
  "list_all isTranscript es \<Longrightarrow> e \<in> set es \<Longrightarrow> isTranscript e"
  by (simp add: list_all_iff)

lemma playbackPart_keeps:
  "outputAudioContext (snd (playbackPart decode now audio flag s)) = outputAudioContext s"
  "inputAudioContext (snd (playbackPart decode now audio flag s)) = inputAudioContext s"
  "mediaStream (snd (playbackPart decode now audio flag s)) = mediaStream s"
  "sessionPromise (snd (playbackPart decode now audio flag s)) = sessionPromise s"
  "scriptProcessor (snd (playbackPart decode now audio flag s)) = scriptProcessor s"
  "currentInputTranscription (snd (playbackPart decode now audio flag s))
     = currentInputTranscription s"
  "currentOutputTranscription (snd (playbackPart decode now audio flag s))
     = (if flag then [] else currentOutputTranscription s)"
  by (simp_all add: playbackPart_def fst_andThen snd_andThen audioChunk_eq interruption_def
      skip_def split: option.splits)

lemma transcriptsOf_append:
  "transcriptsOf u (es @ es') = transcriptsOf u es @ transcriptsOf u es'"
  by (induction u es rule: transcriptsOf.induct) simp_all

lemma transcriptsOf_stops: "transcriptsOf u (map SourceStop xs) = []"
  by (induction xs) simp_all

lemma playbackPart_transcripts:
  "transcriptsOf u (fst (playbackPart decode now audio flag s)) = []"
  by (simp add: playbackPart_def fst_andThen snd_andThen audioChunk_eq interruption_def
      skip_def transcriptsOf_append transcriptsOf_stops split: option.splits)


subsection \<open>Message sequences\<close>

lemma onmessages_append_fst:
  "fst (onmessages decode (xs @ ys) s)
     = fst (onmessages decode xs s) @ fst (onmessages decode ys (snd (onmessages decode xs s)))"
proof (induction xs arbitrary: s)
  case Nil
  then show ?case by simp
next
  case (Cons x xs)
  then show ?case by (cases x) (simp add: split_beta)
qed

lemma onmessages_append_snd:
  "snd (onmessages decode (xs @ ys) s)
     = snd (onmessages decode ys (snd (onmessages decode xs s)))"
proof (induction xs arbitrary: s)
  case Nil
  then show ?case by simp
next
  case (Cons x xs)
  then show ?case by (cases x) (simp add: split_beta)
qed

lemma onmessages_single:
  "onmessages decode [(now, m)] s = handleMessage decode now m s"
  by (simp add: split_beta)


subsection \<open>Transcript accumulation\<close>

lemma transcriptPart_transcripts:
  "transcriptsOf u (fst (transcriptPart m s))
     = map (\<lambda>t. (t, False)) (accumulated (transcription u s) (deltasFor u [(now, m)]))
       @ (if turnComplete m \<and> transcription u s @ concat (deltasFor u [(now, m)]) \<noteq> []
          then [(transcription u s @ concat (deltasFor u [(now, m)]), True)] else [])"
  by (cases u)
     (simp_all add: transcriptPart_def fst_andThen snd_andThen transcriptDelta_def
        turnCompleted_def flushTurn_def skip_def deltaFor_def transcription_def
        transcriptsOf_append split: option.splits)

lemma transcriptPart_transcription:
  "transcription u (snd (transcriptPart m s))
     = (if turnComplete m then [] else transcription u s @ concat (deltasFor u [(now, m)]))"
  by (cases u)
     (simp_all add: transcriptPart_def fst_andThen snd_andThen transcriptDelta_def
        turnCompleted_def flushTurn_def skip_def deltaFor_def transcription_def
        split: option.splits)

lemma handleMessage_transcripts:
  "transcriptsOf u (fst (handleMessage decode now m s))
     = map (\<lambda>t. (t, False)) (accumulated (transcription u s) (deltasFor u [(now, m)]))
       @ (if turnComplete m \<and> transcription u s @ concat (deltasFor u [(now, m)]) \<noteq> []
          then [(transcription u s @ concat (deltasFor u [(now, m)]), True)] else [])"
  using transcriptPart_transcripts [of u m s now]
  by (cases "inlineDataOf m")
     (simp_all add: handleMessage_thrown handleMessage_fst transcriptsOf_append
        playbackPart_transcripts)

lemma handleMessage_transcription:
  "transcription u (snd (handleMessage decode now m s))
     = (if turnComplete m \<or> (\<not> u \<and> interrupted m \<and> \<not> isl (inlineDataOf m)) then []
        else transcription u s @ concat (deltasFor u [(now, m)]))"
proof (cases "inlineDataOf m")
  case (Inl err)
  then show ?thesis
    using transcriptPart_transcription [of u m s now] by (simp add: handleMessage_thrown)
next
  case (Inr audio)
  then show ?thesis
    using transcriptPart_transcription [of u m s now]
    by (cases u) (simp_all add: handleMessage_snd transcription_def playbackPart_keeps)
qed

lemma deltasFor_append: "deltasFor u (xs @ ys) = deltasFor u xs @ deltasFor u ys"
  by (induction u xs rule: deltasFor.induct) (simp_all split: option.splits)

lemma accumulated_append:
  "accumulated b (ds @ ds') = accumulated b ds @ accumulated (b @ concat ds) ds'"
  by (induction ds arbitrary: b) simp_all

lemma length_accumulated: "length (accumulated b ds) = length ds"
  by (induction ds arbitrary: b) simp_all

lemma accumulated_nth:
  "k < length ds \<Longrightarrow> accumulated b ds ! k = b @ concat (take (Suc k) ds)"
proof (induction ds arbitrary: b k)
  case Nil
  then show ?case by simp
next
  case (Cons d ds)
  then show ?case by (cases k) simp_all
qed

lemma accumulated_map:
  "accumulated b ds = map (\<lambda>k. b @ concat (take (Suc k) ds)) [0..<length ds]"
  by (rule nth_equalityI) (simp_all add: length_accumulated accumulated_nth)

lemma concat_take_prefix:
  "i \<le> j \<Longrightarrow> prefix (b @ concat (take i ds)) (b @ concat (take j ds))"
proof -
  assume "i \<le> j"
  then have "take j ds = take i ds @ drop i (take j ds)"
    by (metis append_take_drop_id min.absorb1 take_take)
  then have "concat (take j ds) = concat (take i ds) @ concat (drop i (take j ds))"
    by (metis concat_append)
  then show ?thesis by simp
qed

lemma filter_final_map_nonfinal: "filter snd (map (\<lambda>t. (t, False)) xs) = []"
  by (induction xs) simp_all

lemma open_turn_transcripts:
  assumes "\<forall>(now, m) \<in> set ms. \<not> turnComplete m \<and> (u \<or> \<not> interrupted m)"
  shows "transcriptsOf u (fst (onmessages decode ms s))
           = map (\<lambda>t. (t, False)) (accumulated (transcription u s) (deltasFor u ms))
         \<and> transcription u (snd (onmessages decode ms s))
           = transcription u s @ concat (deltasFor u ms)"
  using assms
proof (induction ms arbitrary: s)
  case Nil
  then show ?case by simp
next
  case (Cons x ms)
  obtain now m where x: "x = (now, m)" by (cases x)
  let ?s' = "snd (handleMessage decode now m s)"
  from Cons.prems x have here: "\<not> turnComplete m" "u \<or> \<not> interrupted m"
    and rest: "\<forall>(now, m) \<in> set ms. \<not> turnComplete m \<and> (u \<or> \<not> interrupted m)"
    by simp_all
  have buf: "transcription u ?s' = transcription u s @ concat (deltasFor u [(now, m)])"
    using here by (auto simp add: handleMessage_transcription)
  have ev: "transcriptsOf u (fst (handleMessage decode now m s))
      = map (\<lambda>t. (t, False)) (accumulated (transcription u s) (deltasFor u [(now, m)]))"
    using here by (simp add: handleMessage_transcripts)
  have ds: "deltasFor u ((now, m) # ms) = deltasFor u [(now, m)] @ deltasFor u ms"
    using deltasFor_append [of u "[(now, m)]" ms] by simp
  show ?case
    using Cons.IH [OF rest, of ?s'] buf ev
    by (simp add: x split_beta transcriptsOf_append ds accumulated_append del: deltasFor.simps)
qed

lemma turn_transcripts:
  assumes "\<forall>(now, m) \<in> set ms. \<not> turnComplete m \<and> (u \<or> \<not> interrupted m)"
  shows "transcriptsOf u (fst (onmessages decode (ms @ [(nowT, mT)]) s))
           = map (\<lambda>t. (t, False))
               (accumulated (transcription u s) (deltasFor u (ms @ [(nowT, mT)])))
             @ (if turnComplete mT
                   \<and> transcription u s @ concat (deltasFor u (ms @ [(nowT, mT)])) \<noteq> []
                then [(transcription u s @ concat (deltasFor u (ms @ [(nowT, mT)])), True)]
                else [])"
    and "transcription u (snd (onmessages decode (ms @ [(nowT, mT)]) s))
           = (if turnComplete mT \<or> (\<not> u \<and> interrupted mT \<and> \<not> isl (inlineDataOf mT)) then []
              else transcription u s @ concat (deltasFor u (ms @ [(nowT, mT)])))"
proof -
  let ?s' = "snd (onmessages decode ms s)"
  note open_turn = open_turn_transcripts [OF assms, of decode s]
  have ds: "deltasFor u (ms @ [(nowT, mT)]) = deltasFor u ms @ deltasFor u [(nowT, mT)]"
    by (rule deltasFor_append)
  show "transcriptsOf u (fst (onmessages decode (ms @ [(nowT, mT)]) s))
           = map (\<lambda>t. (t, False))
               (accumulated (transcription u s) (deltasFor u (ms @ [(nowT, mT)])))
             @ (if turnComplete mT
                   \<and> transcription u s @ concat (deltasFor u (ms @ [(nowT, mT)])) \<noteq> []
                then [(transcription u s @ concat (deltasFor u (ms @ [(nowT, mT)])), True)]
                else [])"
    unfolding ds onmessages_append_fst onmessages_single transcriptsOf_append
      handleMessage_transcripts accumulated_append
    using open_turn by simp
  show "transcription u (snd (onmessages decode (ms @ [(nowT, mT)]) s))
           = (if turnComplete mT \<or> (\<not> u \<and> interrupted mT \<and> \<not> isl (inlineDataOf mT)) then []
              else transcription u s @ concat (deltasFor u (ms @ [(nowT, mT)])))"
    unfolding ds onmessages_append_snd onmessages_single handleMessage_transcription
    using open_turn by simp
qed

subsection \<open>Teardown emits no callback\<close>

lemma disconnect_effects:
  "e \<in> set (fst (disconnect s)) \<Longrightarrow>
     e = ProcessorDisconnect \<or> e = TracksStop \<or> (\<exists>src. e = SourceStop src)
       \<or> (\<exists>c. e = ContextClose c)"
  by (auto simp add: disconnect_eq split: option.splits)

lemma connect_announces:
  "OnStatusChange CONNECTING \<in> set (fst (connect k env s))"
  by (simp add: connect_def Let_def split_beta)

subsection \<open>The message list\<close>

lemma update_last: "xs \<noteq> [] \<Longrightarrow> xs[length xs - Suc 0 := y] = butlast xs @ [y]"
  by (induction xs rule: rev_induct) simp_all

lemma pendingLast_snoc:
  "pendingLast (xs @ [y])
     = (pendingLast xs \<and> (xs = [] \<or> role (last xs) \<noteq> role y \<or> isFinal (last xs)))"
  by (induction xs rule: pendingLast.induct) auto

lemma handleTranscript_pendingLast:
  assumes "pendingLast prev"
  shows "pendingLast (handleTranscript newId date txt isUser final prev)"
proof (cases "prev \<noteq> [] \<and> role (last prev) = (if isUser then User else Model)
                \<and> \<not> isFinal (last prev)")
  case True
  then have prev: "prev = butlast prev @ [last prev]" by simp
  with assms have "pendingLast (butlast prev @ [last prev])" by simp
  then have "pendingLast (butlast prev @ [(last prev)\<lparr>text' := txt, isFinal := final\<rparr>])"
    by (simp add: pendingLast_snoc)
  with True show ?thesis
    by (simp add: handleTranscript_def update_last)
next
  case False
  with assms show ?thesis
    by (auto simp add: handleTranscript_def pendingLast_snoc)
qed

lemma handleTranscript_length:
  "length prev \<le> length (handleTranscript newId date txt isUser final prev)"
  by (simp add: handleTranscript_def)

lemma handleTranscript_keeps_final:
  assumes "i < length prev" and "isFinal (prev ! i)"
  shows "handleTranscript newId date txt isUser final prev ! i = prev ! i"
proof (cases "prev \<noteq> [] \<and> role (last prev) = (if isUser then User else Model)
                \<and> \<not> isFinal (last prev)")
  case True
  then have "\<not> isFinal (prev ! (length prev - 1))"
    by (metis last_conv_nth)
  with assms have "i \<noteq> length prev - 1" by auto
  with True show ?thesis by (simp add: handleTranscript_def)
next
  case False
  with assms show ?thesis by (auto simp add: handleTranscript_def nth_append)
qed

lemma handleTranscripts_pendingLast:
  "pendingLast prev \<Longrightarrow> pendingLast (handleTranscripts cs prev)"
  by (induction cs arbitrary: prev) (simp_all add: handleTranscript_pendingLast)

lemma handleTranscripts_length: "length prev \<le> length (handleTranscripts cs prev)"
proof (induction cs arbitrary: prev)
  case Nil
  then show ?case by simp
next
  case (Cons c cs)
  have "length prev
          \<le> length (handleTranscript (callId c) (callDate c) (callText c) (callIsUser c)
                       (callIsFinal c) prev)"
    by (rule handleTranscript_length)
  also have "\<dots> \<le> length (handleTranscripts (c # cs) prev)"
    using Cons.IH by simp
  finally show ?case .
qed

lemma handleTranscripts_keeps_final:
  "i < length prev \<Longrightarrow> isFinal (prev ! i) \<Longrightarrow> handleTranscripts cs prev ! i = prev ! i"
proof (induction cs arbitrary: prev)
  case Nil
  then show ?case by simp
next
  case (Cons c cs)
  let ?next = "handleTranscript (callId c) (callDate c) (callText c) (callIsUser c)
                 (callIsFinal c) prev"
  have same: "?next ! i = prev ! i"
    using Cons.prems by (rule handleTranscript_keeps_final)
  have "i < length ?next"
    using Cons.prems(1) handleTranscript_length [of prev] by (meson less_le_trans)
  with same Cons.prems(2) have "handleTranscripts cs ?next ! i = ?next ! i"
    by (intro Cons.IH) simp_all
  with same show ?case by simp
qed

subsection \<open>The example inputs, evaluated\<close>

lemma connectedService_eq:
  "connectedService =
     \<lparr>inputAudioContext = Some (AudioContext 16000),
      outputAudioContext = Some (AudioContext 24000),
      scriptProcessor = Some \<lparr>processorConnected = True, onaudioprocess = True\<rparr>,
      mediaStream = Some MediaStream, nextStartTime = 0, sources = [],
      sessionPromise = Some Session,
      currentInputTranscription = [], currentOutputTranscription = []\<rparr>"
  by (simp add: connectedService_def onopen_def setupAudioInput_def connect_def newService_def
      exampleConstants_def permissive_def)

lemma durations: "duration oneSecond = 1" "duration halfSecond = 1 / 2"
  by (simp_all add: duration_def oneSecond_def halfSecond_def)

lemma inlineDataOf_examples:
  "inlineDataOf (audioMessage base64Audio) = Inr (Some base64Audio)"
  "inlineDataOf emptyMessage = Inr None"
  "inlineDataOf (emptyMessage\<lparr>interrupted := flag\<rparr>) = Inr None"
  "inlineDataOf (emptyMessage\<lparr>turnComplete := flag\<rparr>) = Inr None"
  "inlineDataOf (emptyMessage\<lparr>outputTranscription := delta\<rparr>) = Inr None"
  by (simp_all add: inlineDataOf_def audioMessage_def emptyMessage_def)

lemma audioMessage_flags:
  "\<not> interrupted (audioMessage base64Audio)"
  "\<not> turnComplete (audioMessage base64Audio)"
  "outputTranscription (audioMessage base64Audio) = None"
  "inputTranscription (audioMessage base64Audio) = None"
  by (simp_all add: audioMessage_def emptyMessage_def)

lemmas evaluate =
  handleMessage_def handleMessageBegin_def handleMessageResume_def handleInterruption_def
  stopAllAudio_eq inlineDataOf_def audioMessage_def emptyMessage_def exampleDecode_def
  connectedService_eq durations Let_def

lemma first_chunk:
  "handleMessage exampleDecode 0 (audioMessage ''AAAA'') connectedService
     = ([OnVolumeChange (1 / 2), SourceStart \<lparr>buffer = oneSecond, startWhen = 0\<rparr>],
        connectedService\<lparr>nextStartTime := 1,
          sources := [\<lparr>buffer = oneSecond, startWhen = 0\<rparr>]\<rparr>)"
  by (simp add: evaluate)

subsection \<open>Suspended calls\<close>



lemma handleMessage_session:
  "session decode [Message now m, Decoded 0] (s, [])
     = (fst (handleMessage decode now m s), snd (handleMessage decode now m s), [])"
  by (cases "snd (snd (handleMessageBegin now m s))")
     (simp_all add: handleMessage_def split_beta)

text \<open>
  Both chunks of the scenario arrive before either decode completes, and the decodes
  complete in arrival order: the starts are at 0 and 1 and the timeline ends at 1.5.
\<close>

lemma back_to_back_chunks_pipelined:
  "session exampleDecode
     [Message 0 (audioMessage ''AAAA''), Message 0 (audioMessage ''BBBB''), Decoded 0, Decoded 0]
     (connectedService, [])
     = ([OnVolumeChange (1 / 2), SourceStart \<lparr>buffer = oneSecond, startWhen = 0\<rparr>,
         OnVolumeChange (1 / 2), SourceStart \<lparr>buffer = halfSecond, startWhen = 1\<rparr>],
        connectedService\<lparr>nextStartTime := 3 / 2,
          sources := [\<lparr>buffer = oneSecond, startWhen = 0\<rparr>,
                      \<lparr>buffer = halfSecond, startWhen = 1\<rparr>]\<rparr>,
        [])"
  by (simp add: evaluate)

section \<open>Playback scheduling\<close>






text \<open>
  A chunk that fails to decode, arriving two seconds after the clock started, moves
  \<open>nextStartTime\<close> from 0 to 2: the clamp to the clock precedes the \<^verbatim>\<open>try\<close> block.
\<close>

theorem decode_failure_moves_nextStartTime:
  "exampleDecode ''ZZZZ'' = None
   \<and> nextStartTime connectedService = 0
   \<and> nextStartTime
        (snd (handleMessage exampleDecode 2 (audioMessage ''ZZZZ'')
                connectedService)) = 2"
  by (simp add: evaluate)

text \<open>
  Claim C7, as amended. When decoding a chunk fails, no source is started and none is added
  to the active set, no status callback is invoked and no context is closed, a diagnostic is
  logged, and the contexts, the media stream, the session and the capture processor are as
  before. \<open>nextStartTime\<close> is not advanced by any duration, but it is clamped to the
  clock: it ends at \<open>max nextStartTime now\<close>. The rest of the message is still handled:
  when it also carries an interruption, the active set is emptied and the timeline is 0.
\<close>

theorem decode_failure_drops_chunk:
  assumes "inlineDataOf m = Inr (Some base64Audio)" and "base64Audio \<noteq> []"
    and "outputAudioContext s \<noteq> None"
    and "decode base64Audio = None"
  shows "(\<forall>src. SourceStart src \<notin> set (fst (handleMessage decode now m s)))
       \<and> (\<forall>st. OnStatusChange st \<notin> set (fst (handleMessage decode now m s)))
       \<and> (\<forall>c. ContextClose c \<notin> set (fst (handleMessage decode now m s)))
       \<and> ConsoleError \<in> set (fst (handleMessage decode now m s))
       \<and> sources (snd (handleMessage decode now m s)) = (if interrupted m then [] else sources s)
       \<and> nextStartTime (snd (handleMessage decode now m s))
            = (if interrupted m then 0 else max (nextStartTime s) now)
       \<and> outputAudioContext (snd (handleMessage decode now m s)) = outputAudioContext s
       \<and> inputAudioContext (snd (handleMessage decode now m s)) = inputAudioContext s
       \<and> mediaStream (snd (handleMessage decode now m s)) = mediaStream s
       \<and> sessionPromise (snd (handleMessage decode now m s)) = sessionPromise s
       \<and> scriptProcessor (snd (handleMessage decode now m s)) = scriptProcessor s"
proof -
  let ?t = "snd (transcriptPart m s)"
  let ?pb = "playbackPart decode now (Some base64Audio) (interrupted m) ?t"
  note fst_eq = handleMessage_fst [OF assms(1), of decode now s]
  note snd_eq = handleMessage_snd [OF assms(1), of decode now s]
  have pb: "fst ?pb = ConsoleError # (if interrupted m then map SourceStop (sources s) else [])"
    and st: "sources (snd ?pb) = (if interrupted m then [] else sources s)"
    and nst: "nextStartTime (snd ?pb) = (if interrupted m then 0 else max (nextStartTime s) now)"
    using assms
    by (simp_all add: playbackPart_def fst_andThen snd_andThen audioChunk_eq interruption_def
        skip_def transcriptPart_keeps)
  have tr: "\<And>e. e \<in> set (fst (transcriptPart m s)) \<Longrightarrow> isTranscript e"
    using transcriptPart_effects isTranscript_mem by blast
  have "\<And>e. e \<in> set (fst (handleMessage decode now m s)) \<Longrightarrow>
          isTranscript e \<or> e = ConsoleError \<or> (\<exists>x. e = SourceStop x)"
    using tr by (auto simp add: fst_eq pb split: if_splits)
  then have no: "\<And>e. e \<in> set (fst (handleMessage decode now m s)) \<Longrightarrow>
          (\<forall>src. e \<noteq> SourceStart src) \<and> (\<forall>st. e \<noteq> OnStatusChange st) \<and> (\<forall>c. e \<noteq> ContextClose c)"
    by fastforce
  have ce: "ConsoleError \<in> set (fst (handleMessage decode now m s))"
    by (simp add: fst_eq pb)
  show ?thesis
    using no ce st nst
    by (auto simp add: snd_eq playbackPart_keeps transcriptPart_keeps)
qed

theorem decode_failure_drops_chunk_witness:
  "exampleDecode ''ZZZZ'' = None
   \<and> OnStatusChange ERROR
        \<notin> set (fst (handleMessage exampleDecode 2 (audioMessage ''ZZZZ'')
                       connectedService))
   \<and> sources (snd (handleMessage exampleDecode 2 (audioMessage ''ZZZZ'')
                       connectedService)) = []
   \<and> nextStartTime (snd (handleMessage exampleDecode 2 (audioMessage ''ZZZZ'')
                       connectedService)) = max 0 2"
proof -
  have data: "inlineDataOf (audioMessage ''ZZZZ'') = Inr (Some ''ZZZZ'')"
    and dec: "exampleDecode ''ZZZZ'' = None"
    and ctx: "outputAudioContext connectedService \<noteq> None"
    and t0: "nextStartTime connectedService = 0" "sources connectedService = []"
    by (simp_all add: inlineDataOf_examples exampleDecode_def connectedService_eq)
  from decode_failure_drops_chunk
         [of "audioMessage ''ZZZZ''" "''ZZZZ''" connectedService exampleDecode 2,
          OF data _ ctx dec] dec t0
  show ?thesis
    by (simp add: audioMessage_flags)
qed

section \<open>Interruption\<close>




section \<open>Transcript aggregation\<close>

text \<open>
  A model delta with empty text followed by turn complete: the open turn is empty, so the
  guard of the flush is false and no final event is emitted.
\<close>

theorem empty_turn_emits_no_final:
  "filter snd (transcriptsOf False
      (fst (onmessages exampleDecode
              [(0, emptyMessage\<lparr>outputTranscription := Some ''''\<rparr>),
               (0, emptyMessage\<lparr>turnComplete := True\<rparr>)] connectedService))) = []"
  by (simp add: evaluate)

text \<open>
  Claim C2, as amended. A speaker's turn starts with an empty buffer; the messages \<open>ms\<close> carry
  deltas and no turn complete (nor, for the model, an interruption); then one message with
  turn complete arrives. Among the transcript events of the speaker there is exactly one
  final event when the concatenation of the deltas is non-empty, and its text is that
  concatenation in arrival order; there is none when the concatenation is empty. The
  speaker's buffer is empty afterwards.
\<close>

theorem turn_complete_emits_concatenation:
  assumes "transcription isUser s = []"
    and "\<forall>(now, m) \<in> set ms. \<not> turnComplete m \<and> (isUser \<or> \<not> interrupted m)"
    and "turnComplete mT"
  shows "filter snd (transcriptsOf isUser (fst (onmessages decode (ms @ [(nowT, mT)]) s)))
           = (if concat (deltasFor isUser (ms @ [(nowT, mT)])) = [] then []
              else [(concat (deltasFor isUser (ms @ [(nowT, mT)])), True)])
         \<and> transcription isUser (snd (onmessages decode (ms @ [(nowT, mT)]) s)) = []"
  using turn_transcripts [OF assms(2), of decode nowT mT s] assms(1,3)
  by (simp add: filter_final_map_nonfinal)

theorem turn_complete_emits_concatenation_witness:
  "transcription False connectedService = []
   \<and> filter snd (transcriptsOf False
        (fst (onmessages exampleDecode
                ([(0, emptyMessage\<lparr>outputTranscription := Some ''Hel''\<rparr>),
                  (0, emptyMessage\<lparr>outputTranscription := Some ''lo the''\<rparr>),
                  (0, emptyMessage\<lparr>outputTranscription := Some ''re''\<rparr>)]
                 @ [(0, emptyMessage\<lparr>turnComplete := True\<rparr>)]) connectedService)))
       = [(''Hello there'', True)]
   \<and> transcription False
        (snd (onmessages exampleDecode
                ([(0, emptyMessage\<lparr>outputTranscription := Some ''Hel''\<rparr>),
                  (0, emptyMessage\<lparr>outputTranscription := Some ''lo the''\<rparr>),
                  (0, emptyMessage\<lparr>outputTranscription := Some ''re''\<rparr>)]
                 @ [(0, emptyMessage\<lparr>turnComplete := True\<rparr>)]) connectedService)) = []"
proof -
  let ?ms = "[(0::real, emptyMessage\<lparr>outputTranscription := Some ''Hel''\<rparr>),
              (0, emptyMessage\<lparr>outputTranscription := Some ''lo the''\<rparr>),
              (0, emptyMessage\<lparr>outputTranscription := Some ''re''\<rparr>)]"
  let ?mT = "emptyMessage\<lparr>turnComplete := True\<rparr>"
  have start: "transcription False connectedService = []"
    by (simp add: transcription_def connectedService_eq)
  have quiet: "\<forall>(now, m) \<in> set ?ms. \<not> turnComplete m \<and> (False \<or> \<not> interrupted m)"
    by (simp add: emptyMessage_def)
  have tc: "turnComplete ?mT"
    by (simp add: emptyMessage_def)
  have ds: "concat (deltasFor False (?ms @ [(0, ?mT)])) = ''Hello there''"
    by (simp add: deltaFor_def emptyMessage_def)
  from turn_complete_emits_concatenation [OF start quiet tc, of exampleDecode 0] start
  show ?thesis
    unfolding ds by simp
qed

text \<open>
  Three user deltas \<open>a\<close>, \<open>b\<close>, \<open>c\<close> in one turn, the second in a message that also has a
  model delta: the user's second delta is not taken, and the user's last event carries
  \<open>ac\<close>, not the concatenation \<open>abc\<close> of the user's deltas.
\<close>

theorem user_delta_missing_from_accumulated_text:
  "concat (List.map_filter (\<lambda>(now, m). inputTranscription m)
      [(0::real, emptyMessage\<lparr>inputTranscription := Some ''a''\<rparr>),
       (0, emptyMessage\<lparr>outputTranscription := Some ''x'', inputTranscription := Some ''b''\<rparr>),
       (0, emptyMessage\<lparr>inputTranscription := Some ''c''\<rparr>)]) = ''abc''
   \<and> transcriptsOf True
        (fst (onmessages exampleDecode
           [(0, emptyMessage\<lparr>inputTranscription := Some ''a''\<rparr>),
            (0, emptyMessage\<lparr>outputTranscription := Some ''x'', inputTranscription := Some ''b''\<rparr>),
            (0, emptyMessage\<lparr>inputTranscription := Some ''c''\<rparr>)] connectedService))
       = [(''a'', False), (''ac'', False)]"
  by (simp add: evaluate List.map_filter_simps)

text \<open>
  Claim C10, as amended. Take the messages of a turn: \<open>ms\<close> without turn complete (for the
  model also without interruption), then any one further message, which may complete the
  turn. The deltas of a speaker are the ones \<^verbatim>\<open>handleMessage\<close> takes, see \<open>deltaFor\<close>: every
  delta of the model, and every delta of the user that does not arrive in a message with a
  model delta. The transcript events for the speaker are then one non-final event per delta
  taken, the \<open>k\<close>-th carrying the buffer at the start followed by the first \<open>k + 1\<close> deltas
  taken, and after them, when the last message completes the turn and the accumulated text
  is non-empty, one final event carrying all of it. Hence the text of each event is a
  prefix of the text of every later one.
\<close>

theorem transcript_events_carry_accumulated_text:
  assumes "\<forall>(now, m) \<in> set ms. \<not> turnComplete m \<and> (isUser \<or> \<not> interrupted m)"
  shows "transcriptsOf isUser (fst (onmessages decode (ms @ [(nowT, mT)]) s))
           = map (\<lambda>k. (transcription isUser s
                        @ concat (take (Suc k) (deltasFor isUser (ms @ [(nowT, mT)]))), False))
               [0..<length (deltasFor isUser (ms @ [(nowT, mT)]))]
             @ (if turnComplete mT
                   \<and> transcription isUser s @ concat (deltasFor isUser (ms @ [(nowT, mT)])) \<noteq> []
                then [(transcription isUser s
                         @ concat (deltasFor isUser (ms @ [(nowT, mT)])), True)]
                else [])
         \<and> (\<forall>i j. i \<le> j
               \<and> j < length (transcriptsOf isUser (fst (onmessages decode (ms @ [(nowT, mT)]) s)))
               \<longrightarrow> prefix
                     (fst (transcriptsOf isUser (fst (onmessages decode (ms @ [(nowT, mT)]) s)) ! i))
                     (fst (transcriptsOf isUser (fst (onmessages decode (ms @ [(nowT, mT)]) s)) ! j)))"
proof -
  let ?evs = "transcriptsOf isUser (fst (onmessages decode (ms @ [(nowT, mT)]) s))"
  let ?ds = "deltasFor isUser (ms @ [(nowT, mT)])"
  let ?b = "transcription isUser s"
  let ?fin = "if turnComplete mT \<and> ?b @ concat ?ds \<noteq> [] then [(?b @ concat ?ds, True)] else []"
  have evs: "?evs = map (\<lambda>k. (?b @ concat (take (Suc k) ?ds), False)) [0..<length ?ds] @ ?fin"
    using turn_transcripts(1) [OF assms, of decode nowT mT s]
    by (simp add: accumulated_map comp_def)
  have nth_text: "fst (?evs ! k) = ?b @ concat (take (Suc k) ?ds)" if "k < length ?evs" for k
  proof (cases "k < length ?ds")
    case True
    then show ?thesis by (simp add: evs nth_append)
  next
    case False
    with that have "k = length ?ds" and "?fin = [(?b @ concat ?ds, True)]"
      by (auto simp add: evs split: if_splits)
    then show ?thesis by (simp add: evs nth_append)
  qed
  have "prefix (fst (?evs ! i)) (fst (?evs ! j))" if "i \<le> j" and "j < length ?evs" for i j
    proof -
    from that have "i < length ?evs" by simp
    then show ?thesis
      using that concat_take_prefix [of "Suc i" "Suc j" ?b ?ds] by (simp only: nth_text Suc_le_mono)
  qed
  with evs show ?thesis by blast
qed

theorem transcript_events_carry_accumulated_text_witness:
  "transcriptsOf False
     (fst (onmessages exampleDecode
             ([(0, emptyMessage\<lparr>outputTranscription := Some ''Hel''\<rparr>),
               (0, emptyMessage\<lparr>outputTranscription := Some ''lo the''\<rparr>)]
              @ [(0, emptyMessage\<lparr>outputTranscription := Some ''re'', turnComplete := True\<rparr>)])
             connectedService))
     = [(''Hel'', False), (''Hello the'', False), (''Hello there'', False),
        (''Hello there'', True)]"
proof -
  let ?ms = "[(0::real, emptyMessage\<lparr>outputTranscription := Some ''Hel''\<rparr>),
              (0, emptyMessage\<lparr>outputTranscription := Some ''lo the''\<rparr>)]"
  let ?mT = "emptyMessage\<lparr>outputTranscription := Some ''re'', turnComplete := True\<rparr>"
  have quiet: "\<forall>(now, m) \<in> set ?ms. \<not> turnComplete m \<and> (False \<or> \<not> interrupted m)"
    by (simp add: emptyMessage_def)
  have ds: "deltasFor False (?ms @ [(0, ?mT)]) = [''Hel'', ''lo the'', ''re'']"
    by (simp add: deltaFor_def emptyMessage_def)
  have upt: "[0..<3] = [0, Suc 0, Suc (Suc 0)]"
    by (simp add: upt_rec numeral_3_eq_3)
  from transcript_events_carry_accumulated_text [OF quiet, of exampleDecode 0 ?mT connectedService]
  show ?thesis
    unfolding ds
    by (simp add: upt transcription_def connectedService_eq emptyMessage_def)
qed

section \<open>Dispatch order\<close>




section \<open>Session lifecycle\<close>

text \<open>
  What \<^verbatim>\<open>disconnect\<close> does in every state: the capture processor, if there is one, is
  disconnected and loses its handler, the active set is empty with every source stopped,
  both contexts, the media stream and the session are dropped. It does not assign
  \<open>nextStartTime\<close>.
\<close>

lemma disconnect_releases:
  "sources (snd (disconnect s)) = []
   \<and> inputAudioContext (snd (disconnect s)) = None
   \<and> outputAudioContext (snd (disconnect s)) = None
   \<and> mediaStream (snd (disconnect s)) = None
   \<and> sessionPromise (snd (disconnect s)) = None
   \<and> scriptProcessor (snd (disconnect s))
       = map_option (\<lambda>p. p\<lparr>processorConnected := False, onaudioprocess := False\<rparr>)
           (scriptProcessor s)
   \<and> (\<forall>src \<in> set (sources s). SourceStop src \<in> set (fst (disconnect s)))
   \<and> nextStartTime (snd (disconnect s)) = nextStartTime s"
  by (simp add: disconnect_eq)

text \<open>
  Claim C5. After \<^verbatim>\<open>disconnect\<close> the claim wants \<open>nextStartTime\<close> to be zero. Connect, play
  one chunk of one second at engine time 0, disconnect: the active set is empty and the
  contexts are gone, but \<open>nextStartTime\<close> is still 1.
\<close>

theorem disconnect_leaves_nextStartTime:
  "sources (snd (disconnect (snd (handleMessage exampleDecode 0
                                     (audioMessage ''AAAA'')
                                     connectedService)))) = []
   \<and> outputAudioContext (snd (disconnect (snd (handleMessage exampleDecode 0
                                     (audioMessage ''AAAA'')
                                     connectedService)))) = None
   \<and> nextStartTime (snd (disconnect (snd (handleMessage exampleDecode 0
                                     (audioMessage ''AAAA'')
                                     connectedService)))) = 1"
  by (simp add: first_chunk disconnect_eq)

text \<open>
  \<^verbatim>\<open>connect\<close> on a service that is already connected: the status callback is invoked with
  \<open>CONNECTING\<close>, two new audio contexts are created, the microphone is requested and a new
  session is opened.
\<close>

theorem connect_while_connected_is_not_a_noop:
  "fst (connect exampleConstants permissive connectedService)
     = [OnStatusChange CONNECTING, NewAudioContext 16000, NewAudioContext 24000,
        GetUserMedia, LiveConnect]"
  by (simp add: connect_def exampleConstants_def permissive_def)

text \<open>
  Claim C6, as amended. \<^verbatim>\<open>connect\<close> has no guard: in every state it invokes the status
  callback with \<open>CONNECTING\<close>. The guard is in its caller: \<^verbatim>\<open>toggleConnection\<close>, when the status
  is \<open>CONNECTING\<close> or \<open>CONNECTED\<close>, does not call \<^verbatim>\<open>connect\<close> but \<^verbatim>\<open>disconnect\<close>; it invokes no
  status callback, creates no context, requests no microphone, opens no session, and sets
  the status to \<open>DISCONNECTED\<close>.
\<close>

theorem toggle_never_connects_when_connected:
  assumes "status app = CONNECTING \<or> status app = CONNECTED"
  shows "fst (toggleConnection k env app) = fst (disconnect (liveService app))
       \<and> liveService (snd (toggleConnection k env app)) = snd (disconnect (liveService app))
       \<and> status (snd (toggleConnection k env app)) = DISCONNECTED
       \<and> (\<forall>st. OnStatusChange st \<notin> set (fst (toggleConnection k env app)))
       \<and> (\<forall>rate. NewAudioContext rate \<notin> set (fst (toggleConnection k env app)))
       \<and> GetUserMedia \<notin> set (fst (toggleConnection k env app))
       \<and> LiveConnect \<notin> set (fst (toggleConnection k env app))
       \<and> OnStatusChange CONNECTING \<in> set (fst (connect k env (liveService app)))"
proof -
  have eq: "toggleConnection k env app
      = (fst (disconnect (liveService app)),
         app\<lparr>liveService := snd (disconnect (liveService app)), status := DISCONNECTED,
             volume := 0\<rparr>)"
    using assms by (auto simp add: toggleConnection_def split_beta)
  have "\<And>e. e \<in> set (fst (toggleConnection k env app)) \<Longrightarrow>
          e = ProcessorDisconnect \<or> e = TracksStop \<or> (\<exists>src. e = SourceStop src)
            \<or> (\<exists>c. e = ContextClose c)"
    unfolding eq using disconnect_effects [of _ "liveService app"] by simp
  then have none: "\<And>e. e \<in> set (fst (toggleConnection k env app)) \<Longrightarrow>
      (\<forall>st. e \<noteq> OnStatusChange st) \<and> (\<forall>rate. e \<noteq> NewAudioContext rate)
        \<and> e \<noteq> GetUserMedia \<and> e \<noteq> LiveConnect"
    by fastforce
  show ?thesis
    using none connect_announces [of k env "liveService app"] by (auto simp add: eq)
qed

theorem toggle_never_connects_when_connected_witness:
  "status connectedApp = CONNECTED
   \<and> fst (toggleConnection exampleConstants permissive connectedApp)
       = [ProcessorDisconnect, TracksStop, ContextClose (AudioContext 16000),
          ContextClose (AudioContext 24000)]
   \<and> status (snd (toggleConnection exampleConstants permissive connectedApp)) = DISCONNECTED"
  using toggle_never_connects_when_connected [of connectedApp exampleConstants permissive]
  by (simp add: connectedApp_def connectedService_eq disconnect_eq)

section \<open>The visible message list\<close>

text \<open>
  The callbacks of a model delta, a user delta and a second model delta, none final, as
  three messages with these deltas produce them: the second model update finds the user's
  message last and appends, so two non-final model messages are in the list.
\<close>

theorem two_pending_model_messages:
  "length (filter (\<lambda>m. role m = Model \<and> \<not> isFinal m)
     (handleTranscripts
        [exampleCall ''1'' ''a'' False False, exampleCall ''2'' ''b'' True False,
         exampleCall ''3'' ''ac'' False False] [])) = 2"
  by (simp add: handleTranscript_def exampleCall_def)

text \<open>
  Claim C8, as amended. Through every sequence of transcript callbacks, starting from the
  empty list (or any list with the property): a message that is followed by a message of
  the same speaker is final, so each run of consecutive messages of one speaker has at most
  one non-final message, its last. The list never shrinks, and a message that is final is
  never changed afterwards.
\<close>

theorem messages_pending_last_and_final_fixed:
  assumes "pendingLast prev"
  shows "pendingLast (handleTranscripts cs prev)
       \<and> length prev \<le> length (handleTranscripts cs prev)
       \<and> (\<forall>i < length prev. isFinal (prev ! i) \<longrightarrow> handleTranscripts cs prev ! i = prev ! i)"
  using assms
  by (simp add: handleTranscripts_pendingLast handleTranscripts_length
      handleTranscripts_keeps_final)

theorem messages_pending_last_and_final_fixed_witness:
  "pendingLast (handleTranscripts [exampleCall ''1'' ''hi'' False True] [])
   \<and> isFinal (handleTranscripts [exampleCall ''1'' ''hi'' False True] [] ! 0)
   \<and> handleTranscripts [exampleCall ''2'' ''yo'' False False, exampleCall ''3'' ''yo!'' False True]
        (handleTranscripts [exampleCall ''1'' ''hi'' False True] []) ! 0
       = handleTranscripts [exampleCall ''1'' ''hi'' False True] [] ! 0
   \<and> pendingLast
        (handleTranscripts [exampleCall ''2'' ''yo'' False False, exampleCall ''3'' ''yo!'' False True]
           (handleTranscripts [exampleCall ''1'' ''hi'' False True] []))"
proof -
  let ?prev = "handleTranscripts [exampleCall ''1'' ''hi'' False True] []"
  let ?cs = "[exampleCall ''2'' ''yo'' False False, exampleCall ''3'' ''yo!'' False True]"
  have p: "pendingLast ?prev" and f: "isFinal (?prev ! 0)" and l: "0 < length ?prev"
    by (simp_all add: handleTranscript_def exampleCall_def)
  from messages_pending_last_and_final_fixed [OF p, of ?cs] f l p
  show ?thesis by blast
qed

end
